theory Spec2Isabelle
  imports Main "HOL-Library.Sublist" "HOL-Library.Option_ord" "HOL-Library.AList"
begin

section \<open>Document models (app/models/document_models.py)\<close>

text \<open>
  \<^verbatim>\<open>DocumentMetadata\<close> and \<^verbatim>\<open>ParsedDocument\<close> are pydantic models; they become
  records. Python's \<^verbatim>\<open>datetime\<close> is a timestamp (\<open>int\<close>), the free-form \<^verbatim>\<open>extra\<close> dict an
  association list. The fields \<^verbatim>\<open>id\<close>, \<^verbatim>\<open>text\<close> and \<^verbatim>\<open>keywords\<close> are written \<open>id'\<close>,
  \<open>text'\<close> and \<open>keywords'\<close> (\<open>id\<close> is the identity function of HOL, the other two are
  words of the theory language); the \<^verbatim>\<open>filename\<close> of the metadata is \<open>md_filename\<close>.
\<close>

record document_metadata =
  md_filename :: string
  size_bytes :: int
  mime :: string
  title :: "string option"
  author :: "string option"
  created :: "int option"
  modified :: "int option"
  pages :: "int option"
  lines :: "int option"
  paragraphs :: "int option"
  tables :: "int option"
  creator :: "string option"
  extra :: "(string \<times> string) list"

record parsed_document =
  id' :: string
  filename :: string
  path :: string
  text' :: string
  metadata :: document_metadata
  keywords' :: "string list"
  topics :: "string list"
  summary :: "string option"

section \<open>The document repository (app/db/mongo/doc_repo.py)\<close>

text \<open>
  A document of the \<^verbatim>\<open>docs\<close> collection carries the dumped fields of a
  \<^verbatim>\<open>ParsedDocument\<close> (its \<^verbatim>\<open>id\<close> stored as \<^verbatim>\<open>_id\<close>) and whatever else was written to
  it: the embedded document \<^verbatim>\<open>summaries\<close> that \<^verbatim>\<open>set_summary\<close> fills (keyed by the
  decimal text of the length, here by the length itself; an absent \<^verbatim>\<open>summaries\<close> is the
  empty list), and the field \<^verbatim>\<open>uploaded_at\<close> that \<^verbatim>\<open>list_meta\<close> sorts on (\<open>None\<close> when the
  document has no such field).

  The collection is the list of its documents in natural (insertion) order.
\<close>

record raw_doc = parsed_document +
  summaries :: "(int \<times> string) list"
  uploaded_at :: "int option"

type_synonym collection = "raw_doc list"

datatype exn =
  ValueError string
  | RuntimeError string
  | PyMongoError string
  | Exception string

fun str :: "exn \<Rightarrow> string" where
  "str (ValueError m) = m"
| "str (RuntimeError m) = m"
| "str (PyMongoError m) = m"
| "str (Exception m) = m"

text \<open>
  \<^verbatim>\<open>doc.model_dump()\<close> with \<^verbatim>\<open>id\<close> renamed to \<^verbatim>\<open>_id\<close>: exactly the fields of the model,
  so no \<^verbatim>\<open>summaries\<close> and no \<^verbatim>\<open>uploaded_at\<close>.
\<close>

definition model_dump :: "parsed_document \<Rightarrow> raw_doc" where
  "model_dump doc = parsed_document.extend doc
     (raw_doc.fields [] None)"

text \<open>
  \<^verbatim>\<open>ParsedDocument(**raw)\<close> after \<^verbatim>\<open>raw["id"] = raw.pop("_id")\<close>: the model ignores the keys
  it does not declare.
\<close>

definition ParsedDocument :: "raw_doc \<Rightarrow> parsed_document" where
  "ParsedDocument raw = parsed_document.truncate raw"

text \<open>\<^verbatim>\<open>collection.replace_one({"_id": d["_id"]}, d, upsert=True)\<close>\<close>

fun replace_one_upsert :: "raw_doc \<Rightarrow> collection \<Rightarrow> collection" where
  "replace_one_upsert d [] = [d]"
| "replace_one_upsert d (r # rs) =
     (if id' r = id' d then d # rs else r # replace_one_upsert d rs)"

text \<open>
  \<^verbatim>\<open>upsert\<close>: the first argument is the value \<^verbatim>\<open>uuid.uuid4().hex\<close> returns if it is called.
\<close>

definition upsert :: "string \<Rightarrow> parsed_document \<Rightarrow> collection \<Rightarrow> string \<times> collection" where
  "upsert uuid4_hex doc coll =
     (let doc1 = (if id' doc = [] then doc\<lparr>id' := uuid4_hex\<rparr> else doc);
          doc_dict = model_dump doc1
      in (id' doc_dict, replace_one_upsert doc_dict coll))"

text \<open>\<^verbatim>\<open>collection.delete_one({"_id": doc_id})\<close>\<close>

fun delete_one :: "string \<Rightarrow> collection \<Rightarrow> collection" where
  "delete_one doc_id [] = []"
| "delete_one doc_id (r # rs) = (if id' r = doc_id then rs else r # delete_one doc_id rs)"

definition delete :: "string \<Rightarrow> collection \<Rightarrow> collection" where
  "delete doc_id coll = delete_one doc_id coll"

text \<open>\<^verbatim>\<open>collection.delete_many({"path": path})\<close>, returning \<^verbatim>\<open>deleted_count\<close>.\<close>

definition delete_by_path :: "string \<Rightarrow> collection \<Rightarrow> nat \<times> collection" where
  "delete_by_path p coll =
     (length (filter (\<lambda>r. path r = p) coll), filter (\<lambda>r. path r \<noteq> p) coll)"

definition get :: "string \<Rightarrow> collection \<Rightarrow> parsed_document option" where
  "get doc_id coll =
     (case find (\<lambda>r. id' r = doc_id) coll of
        None \<Rightarrow> None
      | Some raw \<Rightarrow> Some (ParsedDocument raw))"

text \<open>
  \<^verbatim>\<open>.sort("uploaded_at", -1)\<close>: descending on the field, a document without the field
  sorting as null, below every value, so last. MongoDB leaves the order of documents with
  equal keys open; the model keeps them in natural order (a stable sort).
\<close>

definition sort_descending :: "('a \<Rightarrow> 'k::linorder) \<Rightarrow> 'a list \<Rightarrow> 'a list" where
  "sort_descending f xs = rev (sort_key f (rev xs))"

text \<open>The projection \<^verbatim>\<open>{"text": 0}\<close> followed by \<^verbatim>\<open>raw["text"] = ""\<close>.\<close>

definition blank_text :: "raw_doc \<Rightarrow> parsed_document" where
  "blank_text raw = ParsedDocument (raw\<lparr>text' := []\<rparr>)"

definition list_meta :: "collection \<Rightarrow> parsed_document list" where
  "list_meta coll = map blank_text (sort_descending uploaded_at coll)"

text \<open>
  The filter documents \<^verbatim>\<open>query\<close> builds: \<^verbatim>\<open>{"topics": t}\<close> and \<^verbatim>\<open>{"keywords": k}\<close>, each
  matching a document whose array holds the value, under \<^verbatim>\<open>$or\<close>. MongoDB rejects
  an empty \<^verbatim>\<open>$or\<close> array when the cursor is first read.
\<close>

datatype clause = Topics string | Keywords string

fun matches :: "clause \<Rightarrow> raw_doc \<Rightarrow> bool" where
  "matches (Topics t) r = (t \<in> set (topics r))"
| "matches (Keywords k) r = (k \<in> set (keywords' r))"

definition find_or :: "clause list \<Rightarrow> collection \<Rightarrow> exn + collection" where
  "find_or cs coll =
     (if cs = [] then Inl (PyMongoError ''$and/$or/$nor must be a nonempty array'')
      else Inr (filter (\<lambda>r. \<exists>c \<in> set cs. matches c r) coll))"

text \<open>
  \<^verbatim>\<open>query\<close>: \<open>None\<close> is Python's \<^verbatim>\<open>None\<close>; \<^verbatim>\<open>if topic:\<close> holds for a non-empty string.
  The result is the whole stream, or the exception raised while it is read.
\<close>

definition query :: "string option \<Rightarrow> string option \<Rightarrow> collection \<Rightarrow> exn + parsed_document list" where
  "query topic keyword coll =
     (if topic = None \<and> keyword = None
      then Inl (ValueError ''At least one of topic or keyword must be provided'')
      else
        let q1 = (case topic of Some t \<Rightarrow> (if t \<noteq> [] then [Topics t] else []) | None \<Rightarrow> []);
            q2 = (case keyword of Some k \<Rightarrow> (if k \<noteq> [] then [Keywords k] else []) | None \<Rightarrow> [])
        in (case find_or (q1 @ q2) coll of
              Inl e \<Rightarrow> Inl e
            | Inr raws \<Rightarrow> Inr (map blank_text raws)))"

definition exists_doc :: "string \<Rightarrow> collection \<Rightarrow> bool" where
  "exists_doc doc_id coll = (length (take 1 (filter (\<lambda>r. id' r = doc_id) coll)) > 0)"

definition get_id_by_path :: "string \<Rightarrow> collection \<Rightarrow> string option" where
  "get_id_by_path p coll =
     (case find (\<lambda>r. path r = p) coll of
        None \<Rightarrow> None
      | Some result \<Rightarrow> Some (id' result))"

text \<open>
  \<^verbatim>\<open>collection.update_one({"_id": doc_id}, {"$set": {"summaries.<length>": summary}})\<close>:
  the first document with that \<^verbatim>\<open>_id\<close> gets the key set (replaced in place, or added at
  the end of the embedded document); without a match nothing is written.
\<close>

fun update_one_set :: "string \<Rightarrow> int \<Rightarrow> string \<Rightarrow> collection \<Rightarrow> collection" where
  "update_one_set doc_id len s [] = []"
| "update_one_set doc_id len s (r # rs) =
     (if id' r = doc_id then r\<lparr>summaries := AList.update len s (summaries r)\<rparr> # rs
      else r # update_one_set doc_id len s rs)"

definition set_summary :: "string \<Rightarrow> int \<Rightarrow> string \<Rightarrow> collection \<Rightarrow> collection" where
  "set_summary doc_id len s coll = update_one_set doc_id len s coll"

section \<open>Paths and strings (pathlib, os.path, str)\<close>

fun split_sep :: "char \<Rightarrow> string \<Rightarrow> string list" where
  "split_sep c [] = [[]]"
| "split_sep c (x # xs) =
     (if x = c then [] # split_sep c xs
      else (case split_sep c xs of [] \<Rightarrow> [[x]] | w # ws \<Rightarrow> (x # w) # ws))"

text \<open>
  \<^verbatim>\<open>Path(p).name\<close> on POSIX: the last component of the path, empty components and
  \<^verbatim>\<open>.\<close> components dropped; empty when there is none.
\<close>

definition path_name :: "string \<Rightarrow> string" where
  "path_name p =
     (case rev (filter (\<lambda>c. c \<noteq> [] \<and> c \<noteq> ''.'') (split_sep CHR ''/'' p)) of
        [] \<Rightarrow> []
      | n # _ \<Rightarrow> n)"

text \<open>
  \<^verbatim>\<open>Path(p).suffix\<close>: with \<^verbatim>\<open>i = name.rfind('.')\<close>, the text \<^verbatim>\<open>name[i:]\<close> when
  \<^verbatim>\<open>0 < i < len(name) - 1\<close>, otherwise the empty string.
\<close>

definition path_suffix :: "string \<Rightarrow> string" where
  "path_suffix p =
     (let n = path_name p;
          ext = rev (takeWhile (\<lambda>c. c \<noteq> CHR ''.'') (rev n))
      in if CHR ''.'' \<in> set n \<and> ext \<noteq> [] \<and> Suc (length ext) < length n
         then CHR ''.'' # ext else [])"

text \<open>
  \<^verbatim>\<open>str.lower\<close> on ASCII text: only the letters A to Z change. Python lowers every
  cased character; the suffixes of the registry are ASCII, so the lookup in the registry
  is the same.
\<close>

definition str_lower :: "string \<Rightarrow> string" where
  "str_lower s =
     map (\<lambda>c. case map_of (zip ''ABCDEFGHIJKLMNOPQRSTUVWXYZ'' ''abcdefghijklmnopqrstuvwxyz'') c of
                 None \<Rightarrow> c | Some l \<Rightarrow> l) s"

definition startswith :: "string \<Rightarrow> string \<Rightarrow> bool" where
  "startswith s p = prefix p s"

definition os_path_join :: "string \<Rightarrow> string \<Rightarrow> string" where
  "os_path_join a b =
     (if b \<noteq> [] \<and> hd b = CHR ''/'' then b
      else if a = [] \<or> last a = CHR ''/'' then a @ b
      else a @ ''/'' @ b)"

text \<open>\<^verbatim>\<open>", ".join(xs)\<close>\<close>

fun join :: "string \<Rightarrow> string list \<Rightarrow> string" where
  "join sep [] = []"
| "join sep [x] = x"
| "join sep (x # y # ys) = x @ sep @ join sep (y # ys)"

text \<open>The decimal text of a count, as an f-string prints it.\<close>

fun str_nat :: "nat \<Rightarrow> string" where
  "str_nat n =
     (if n < 10 then [''0123456789'' ! n]
      else str_nat (n div 10) @ [''0123456789'' ! (n mod 10)])"

section \<open>The world around the pipeline\<close>

text \<open>
  What the handlers call and this repository does not contain is a parameter of the
  model:
  \<^item> \<open>registry\<close>: the dict \<^verbatim>\<open>REGISTRY\<close> of \<^verbatim>\<open>parsers/base.py\<close> after the imports, in
    insertion order; a parser reads the file at a path and returns the document or raises;
  \<^item> \<open>chain_ainvoke\<close>: the prompt, the model and the output parser of
    \<^verbatim>\<open>extract_document_info\<close>, from the content sent to the result or the exception;
  \<^item> \<open>os_walk\<close>: \<^verbatim>\<open>os.walk\<close>, the directories under a root with the files of each;
  \<^item> \<open>motor_fault\<close>: the exception the driver raises in an operation of the repository,
    if it does (a lost connection, a constraint);
  \<^item> \<open>uuid4_hex\<close>: the values of \<^verbatim>\<open>uuid.uuid4().hex\<close>, by call number.
\<close>

record document_extraction =
  extracted_keywords :: "string list"
  extracted_topics :: "string list"
  extracted_summary :: string

datatype db_op = Connect | Upsert | Delete | DeleteByPath | Get | ListMeta | GetIdByPath

record env =
  registry :: "(string \<times> (string \<Rightarrow> exn + parsed_document)) list"
  chain_ainvoke :: "string \<Rightarrow> exn + document_extraction"
  os_walk :: "string \<Rightarrow> (string \<times> string list) list"
  motor_fault :: "db_op \<Rightarrow> exn option"
  uuid4_hex :: "nat \<Rightarrow> string"

datatype level = INFO | WARNING | ERROR

text \<open>
  The state the handlers act on: the \<^verbatim>\<open>docs\<close> collection, the records of the
  handlers' logger, and the number of identifiers drawn so far.
\<close>

record state =
  docs :: collection
  log :: "(level \<times> string) list"
  uuid_calls :: nat

definition logger_info :: "string \<Rightarrow> state \<Rightarrow> state" where
  "logger_info m s = s\<lparr>log := log s @ [(INFO, m)]\<rparr>"

definition logger_warning :: "string \<Rightarrow> state \<Rightarrow> state" where
  "logger_warning m s = s\<lparr>log := log s @ [(WARNING, m)]\<rparr>"

definition logger_error :: "string \<Rightarrow> state \<Rightarrow> state" where
  "logger_error m s = s\<lparr>log := log s @ [(ERROR, m)]\<rparr>"

text \<open>\<^verbatim>\<open>get_database()\<close> builds a \<^verbatim>\<open>MongoDocRepo\<close>, which connects.\<close>

definition get_database :: "env \<Rightarrow> exn + unit" where
  "get_database env = (case motor_fault env Connect of Some e \<Rightarrow> Inl e | None \<Rightarrow> Inr ())"

text \<open>The calls \<^verbatim>\<open>await db.<operation>(...)\<close>: the driver's exception, or the operation.\<close>

definition db_get_id_by_path :: "env \<Rightarrow> string \<Rightarrow> state \<Rightarrow> exn + string option" where
  "db_get_id_by_path env p s =
     (case motor_fault env GetIdByPath of
        Some e \<Rightarrow> Inl e
      | None \<Rightarrow> Inr (get_id_by_path p (docs s)))"

definition db_get :: "env \<Rightarrow> string \<Rightarrow> state \<Rightarrow> exn + parsed_document option" where
  "db_get env doc_id s =
     (case motor_fault env Get of
        Some e \<Rightarrow> Inl e
      | None \<Rightarrow> Inr (get doc_id (docs s)))"

definition db_list_meta :: "env \<Rightarrow> state \<Rightarrow> exn + parsed_document list" where
  "db_list_meta env s =
     (case motor_fault env ListMeta of
        Some e \<Rightarrow> Inl e
      | None \<Rightarrow> Inr (list_meta (docs s)))"

definition db_delete :: "env \<Rightarrow> string \<Rightarrow> state \<Rightarrow> (exn + unit) \<times> state" where
  "db_delete env doc_id s =
     (case motor_fault env Delete of
        Some e \<Rightarrow> (Inl e, s)
      | None \<Rightarrow> (Inr (), s\<lparr>docs := delete doc_id (docs s)\<rparr>))"

definition db_delete_by_path :: "env \<Rightarrow> string \<Rightarrow> state \<Rightarrow> (exn + nat) \<times> state" where
  "db_delete_by_path env p s =
     (case motor_fault env DeleteByPath of
        Some e \<Rightarrow> (Inl e, s)
      | None \<Rightarrow> (Inr (fst (delete_by_path p (docs s))),
                 s\<lparr>docs := snd (delete_by_path p (docs s))\<rparr>))"

text \<open>
  \<^verbatim>\<open>upsert\<close> draws the identifier (when the document has none) before it writes.
\<close>

definition db_upsert :: "env \<Rightarrow> parsed_document \<Rightarrow> state \<Rightarrow> (exn + string) \<times> state" where
  "db_upsert env doc s =
     (let s1 = (if id' doc = [] then s\<lparr>uuid_calls := Suc (uuid_calls s)\<rparr> else s)
      in case motor_fault env Upsert of
           Some e \<Rightarrow> (Inl e, s1)
         | None \<Rightarrow>
             (Inr (fst (upsert (uuid4_hex env (uuid_calls s)) doc (docs s))),
              s1\<lparr>docs := snd (upsert (uuid4_hex env (uuid_calls s)) doc (docs s))\<rparr>))"

section \<open>The loader (app/ingestion/loader.py)\<close>

definition parse_file :: "env \<Rightarrow> string \<Rightarrow> exn + parsed_document" where
  "parse_file env p =
     (let sfx = str_lower (path_suffix p)
      in case map_of (registry env) sfx of
           None \<Rightarrow> Inl (ValueError (''Unsupported file type: '' @ sfx))
         | Some parser \<Rightarrow> parser p)"

section \<open>The handlers (app/ingestion/watchers/local/local_handlers.py)\<close>

definition extract_document_info :: "env \<Rightarrow> string \<Rightarrow> exn + document_extraction" where
  "extract_document_info env file_content = chain_ainvoke env (take 8000 file_content)"

text \<open>
  \<^verbatim>\<open>process_file\<close>, lines 188 to 212: the registry check, the parse, the enrichment and
  the write, reached when no record has the path and after the delete of a forced update.
\<close>

definition process_file_new :: "env \<Rightarrow> string \<Rightarrow> state \<Rightarrow> (exn + unit) \<times> state" where
  "process_file_new env file_path s =
     (if map_of (registry env) (str_lower (path_suffix file_path)) = None
      then (Inr (), logger_info (''Skipping unsupported file: '' @ file_path @ '' (supported: ''
                       @ join '', '' (map fst (registry env)) @ '')'') s)
      else
        let s1 = logger_info (''Processing new file: '' @ file_path) s
        in case parse_file env file_path of
             Inl e \<Rightarrow> (Inl e, s1)
           | Inr document \<Rightarrow>
               (case extract_document_info env (text' document) of
                  Inl e \<Rightarrow> (Inl e, s1)
                | Inr doc_info \<Rightarrow>
                    (case db_upsert env
                            (document\<lparr>keywords' := extracted_keywords doc_info,
                                      topics := extracted_topics doc_info,
                                      summary := Some (extracted_summary doc_info)\<rparr>) s1 of
                       (Inl e, s2) \<Rightarrow> (Inl e, s2)
                     | (Inr doc_id, s2) \<Rightarrow>
                         (Inr (), logger_info (''Document processed successfully: '' @ doc_id) s2))))"

text \<open>The body of the \<^verbatim>\<open>try\<close> of \<^verbatim>\<open>process_file\<close>: an exception is \<open>Inl\<close>.\<close>

definition process_file_try :: "env \<Rightarrow> string \<Rightarrow> bool \<Rightarrow> state \<Rightarrow> (exn + unit) \<times> state" where
  "process_file_try env file_path force_update s =
     (case get_database env of
        Inl e \<Rightarrow> (Inl e, s)
      | Inr _ \<Rightarrow>
          (case db_get_id_by_path env file_path s of
             Inl e \<Rightarrow> (Inl e, s)
           | Inr None \<Rightarrow> process_file_new env file_path s
           | Inr (Some doc_id) \<Rightarrow>
               if force_update then
                 (case db_delete_by_path env file_path
                         (logger_info (''Force updating existing document: '' @ doc_id) s) of
                    (Inl e, s1) \<Rightarrow> (Inl e, s1)
                  | (Inr _, s1) \<Rightarrow> process_file_new env file_path s1)
               else (Inr (), logger_info (''Document already exists, skipping: '' @ doc_id) s)))"

text \<open>
  \<^verbatim>\<open>process_file\<close>: \<^verbatim>\<open>except Exception\<close> logs the exception and the call returns. The
  first component is what the caller sees: \<open>Inr ()\<close> for a return, \<open>Inl e\<close> for an
  exception that leaves the call.
\<close>

definition process_file :: "env \<Rightarrow> string \<Rightarrow> bool \<Rightarrow> state \<Rightarrow> (exn + unit) \<times> state" where
  "process_file env file_path force_update s =
     (case process_file_try env file_path force_update s of
        (Inl e, s1) \<Rightarrow>
          (Inr (), logger_error (''Error processing file '' @ file_path @ '': '' @ str e) s1)
      | (Inr u, s1) \<Rightarrow> (Inr u, s1))"

definition handle_deleted_file_try :: "env \<Rightarrow> string \<Rightarrow> state \<Rightarrow> (exn + unit) \<times> state" where
  "handle_deleted_file_try env file_path s =
     (let s1 = logger_info (''Handling deleted file: '' @ file_path) s
      in case get_database env of
           Inl e \<Rightarrow> (Inl e, s1)
         | Inr _ \<Rightarrow>
             (case db_get_id_by_path env file_path s1 of
                Inl e \<Rightarrow> (Inl e, s1)
              | Inr found \<Rightarrow>
                  (case found of
                     Some doc_id \<Rightarrow>
                       if doc_id \<noteq> [] then
                         (case db_delete env doc_id s1 of
                            (Inl e, s2) \<Rightarrow> (Inl e, s2)
                          | (Inr _, s2) \<Rightarrow>
                              (Inr (), logger_info (''Document with ID '' @ doc_id
                                         @ '' deleted successfully'') s2))
                       else (Inr (), logger_warning
                               (''No document found for deleted file: '' @ file_path) s1)
                   | None \<Rightarrow> (Inr (), logger_warning
                               (''No document found for deleted file: '' @ file_path) s1))))"

definition handle_deleted_file :: "env \<Rightarrow> string \<Rightarrow> state \<Rightarrow> (exn + unit) \<times> state" where
  "handle_deleted_file env file_path s =
     (case handle_deleted_file_try env file_path s of
        (Inl e, s1) \<Rightarrow>
          (Inr (), logger_error (''Error handling deleted file '' @ file_path @ '': '' @ str e) s1)
      | (Inr u, s1) \<Rightarrow> (Inr u, s1))"

text \<open>
  \<^verbatim>\<open>handle_moved_file\<close>: \<^verbatim>\<open>if doc_id:\<close> holds for a non-empty identifier, \<^verbatim>\<open>if doc:\<close> for
  every document \<^verbatim>\<open>get\<close> returns.
\<close>

definition handle_moved_file_try :: "env \<Rightarrow> string \<Rightarrow> string \<Rightarrow> state \<Rightarrow> (exn + unit) \<times> state" where
  "handle_moved_file_try env src_path dest_path s =
     (let src_filename = path_name src_path;
          dest_filename = path_name dest_path;
          s1 = logger_info (''Handling moved file from '' @ src_path @ '' to '' @ dest_path) s;
          fallback = (\<lambda>s'. process_file env dest_path False
                        (logger_info (''No document found for source path '' @ src_path
                           @ '', processing '' @ dest_path @ '' as a new file'') s'))
      in case get_database env of
           Inl e \<Rightarrow> (Inl e, s1)
         | Inr _ \<Rightarrow>
             (case db_get_id_by_path env src_path s1 of
                Inl e \<Rightarrow> (Inl e, s1)
              | Inr None \<Rightarrow> fallback s1
              | Inr (Some doc_id) \<Rightarrow>
                  if doc_id = [] then fallback s1
                  else
                    (case db_get env doc_id s1 of
                       Inl e \<Rightarrow> (Inl e, s1)
                     | Inr None \<Rightarrow>
                         process_file env dest_path False
                           (logger_warning (''Document with ID '' @ doc_id
                              @ '' found but could not be retrieved'') s1)
                     | Inr (Some doc) \<Rightarrow>
                         (case db_upsert env
                                 (doc\<lparr>path := dest_path,
                                      filename := (if src_filename \<noteq> dest_filename
                                                   then dest_filename else filename doc)\<rparr>) s1 of
                            (Inl e, s2) \<Rightarrow> (Inl e, s2)
                          | (Inr _, s2) \<Rightarrow>
                              (Inr (), logger_info (''Document with ID '' @ doc_id
                                         @ '' updated with new path: '' @ dest_path) s2)))))"

definition handle_moved_file :: "env \<Rightarrow> string \<Rightarrow> string \<Rightarrow> state \<Rightarrow> (exn + unit) \<times> state" where
  "handle_moved_file env src_path dest_path s =
     (case handle_moved_file_try env src_path dest_path s of
        (Inl e, s1) \<Rightarrow>
          (Inr (), logger_error (''Error handling moved file from '' @ src_path @ '' to ''
                      @ dest_path @ '': '' @ str e) s1)
      | (Inr u, s1) \<Rightarrow> (Inr u, s1))"

text \<open>
  The loop of \<^verbatim>\<open>_cleanup_deleted_files_in_directory\<close> over the documents \<^verbatim>\<open>list_meta\<close>
  yields, with \<^verbatim>\<open>deleted_count\<close>; an exception of \<^verbatim>\<open>delete\<close> ends it.
\<close>

fun cleanup_loop ::
  "env \<Rightarrow> string \<Rightarrow> string set \<Rightarrow> parsed_document list \<Rightarrow> nat \<Rightarrow> state \<Rightarrow> (exn + nat) \<times> state" where
  "cleanup_loop env dir_path existing_file_paths [] deleted_count s = (Inr deleted_count, s)"
| "cleanup_loop env dir_path existing_file_paths (doc # rest) deleted_count s =
     (if path doc \<noteq> [] \<and> startswith (path doc) dir_path \<and> path doc \<notin> existing_file_paths
      then
        (case db_delete env (id' doc)
                (logger_info (''Deleting orphaned document: '' @ id' doc
                   @ '' (path: '' @ path doc @ '')'') s) of
           (Inl e, s1) \<Rightarrow> (Inl e, s1)
         | (Inr _, s1) \<Rightarrow>
             cleanup_loop env dir_path existing_file_paths rest (Suc deleted_count) s1)
      else cleanup_loop env dir_path existing_file_paths rest deleted_count s)"

definition cleanup_deleted_files_in_directory_try ::
  "env \<Rightarrow> string \<Rightarrow> string set \<Rightarrow> state \<Rightarrow> (exn + unit) \<times> state" where
  "cleanup_deleted_files_in_directory_try env dir_path existing_file_paths s =
     (let s1 = logger_info (''Cleaning up deleted files in directory: '' @ dir_path) s
      in case get_database env of
           Inl e \<Rightarrow> (Inl e, s1)
         | Inr _ \<Rightarrow>
             (case db_list_meta env s1 of
                Inl e \<Rightarrow> (Inl e, s1)
              | Inr metas \<Rightarrow>
                  (case cleanup_loop env dir_path existing_file_paths metas 0 s1 of
                     (Inl e, s2) \<Rightarrow> (Inl e, s2)
                   | (Inr deleted_count, s2) \<Rightarrow>
                       (Inr (),
                        if deleted_count > 0
                        then logger_info (''Cleaned up '' @ str_nat deleted_count
                               @ '' orphaned documents from directory: '' @ dir_path) s2
                        else logger_info (''No orphaned documents found in directory: ''
                               @ dir_path) s2))))"

definition cleanup_deleted_files_in_directory ::
  "env \<Rightarrow> string \<Rightarrow> string set \<Rightarrow> state \<Rightarrow> (exn + unit) \<times> state" where
  "cleanup_deleted_files_in_directory env dir_path existing_file_paths s =
     (case cleanup_deleted_files_in_directory_try env dir_path existing_file_paths s of
        (Inl e, s1) \<Rightarrow>
          (Inr (), logger_error (''Error cleaning up deleted files in directory '' @ dir_path
                      @ '': '' @ str e) s1)
      | (Inr u, s1) \<Rightarrow> (Inr u, s1))"

text \<open>The files \<^verbatim>\<open>os.walk\<close> finds, each joined to its directory, in the order of the walk.\<close>

definition walk_file_paths :: "env \<Rightarrow> string \<Rightarrow> string list" where
  "walk_file_paths env dir_path =
     concat (map (\<lambda>(root, files). map (os_path_join root) files) (os_walk env dir_path))"

text \<open>
  The two nested loops of \<^verbatim>\<open>process_directory\<close>: \<^verbatim>\<open>process_file\<close> on every file. A call
  of \<^verbatim>\<open>process_file\<close> returns whatever happens in it, so the loop reaches every file.
\<close>

fun process_files :: "env \<Rightarrow> string list \<Rightarrow> state \<Rightarrow> state" where
  "process_files env [] s = s"
| "process_files env (file_path # rest) s =
     process_files env rest (snd (process_file env file_path False s))"

text \<open>
  \<^verbatim>\<open>process_directory\<close>: the walk, \<^verbatim>\<open>process_file\<close> and the cleanup raise nothing
  (\<^verbatim>\<open>os.walk\<close> skips what it cannot read, the other two catch their exceptions), so the
  \<^verbatim>\<open>except\<close> of this function is never entered.
\<close>

definition process_directory :: "env \<Rightarrow> string \<Rightarrow> state \<Rightarrow> (exn + unit) \<times> state" where
  "process_directory env dir_path s =
     (let s1 = logger_info (''Processing directory: '' @ dir_path) s;
          file_paths = walk_file_paths env dir_path;
          s2 = process_files env file_paths s1
      in cleanup_deleted_files_in_directory env dir_path (set file_paths) s2)"

section \<open>Example inputs\<close>

definition example_metadata :: document_metadata where
  "example_metadata = \<lparr>md_filename = ''a.txt'', size_bytes = 3, mime = ''text/plain'',
     title = None, author = None, created = None, modified = None, pages = None,
     lines = Some 1, paragraphs = None, tables = None, creator = None, extra = []\<rparr>"

definition doc_a :: parsed_document where
  "doc_a = \<lparr>id' = ''h1'', filename = ''a.txt'', path = ''/in/a.txt'', text' = ''abc'',
     metadata = example_metadata, keywords' = [''k''], topics = [''t''],
     summary = Some ''s''\<rparr>"

definition doc_b :: parsed_document where
  "doc_b = \<lparr>id' = ''h2'', filename = ''b.txt'', path = ''/in/b.txt'', text' = ''xyz'',
     metadata = example_metadata, keywords' = [''q''], topics = [],
     summary = None\<rparr>"

definition example_extraction :: document_extraction where
  "example_extraction = \<lparr>extracted_keywords = [''alpha'', ''beta''],
     extracted_topics = [''letters''], extracted_summary = ''three letters''\<rparr>"

definition txt_parser :: "string \<Rightarrow> exn + parsed_document" where
  "txt_parser p =
     (if p = ''/in/bad.txt'' then Inl (Exception ''cannot decode'')
      else Inr \<lparr>id' = ''md5-'' @ path_name p, filename = path_name p, path = p, text' = ''abc'',
                metadata = example_metadata, keywords' = [], topics = [], summary = None\<rparr>)"

definition env_ok :: env where
  "env_ok = \<lparr>registry = [(''.txt'', txt_parser)],
     chain_ainvoke = (\<lambda>content. Inr example_extraction),
     os_walk = (\<lambda>d. if d = ''/in'' then [(''/in'', [''a.txt''])] else []),
     motor_fault = (\<lambda>op. None),
     uuid4_hex = (\<lambda>n. ''uuid'' @ str_nat n)\<rparr>"

definition env_enrich_fails :: env where
  "env_enrich_fails =
     env_ok\<lparr>chain_ainvoke := (\<lambda>content. Inl (Exception ''malformed output''))\<rparr>"

definition env_store_down :: env where
  "env_store_down = env_ok\<lparr>motor_fault :=
     (\<lambda>op. if op = Connect then None else Some (PyMongoError ''connection refused''))\<rparr>"

definition state_empty :: state where
  "state_empty = \<lparr>docs = [], log = [], uuid_calls = 0\<rparr>"

definition state_ab :: state where
  "state_ab = \<lparr>docs = [model_dump doc_a, model_dump doc_b], log = [], uuid_calls = 0\<rparr>"

definition parsed_a :: parsed_document where
  "parsed_a = \<lparr>id' = ''md5-a.txt'', filename = ''a.txt'', path = ''/in/a.txt'', text' = ''abc'',
     metadata = example_metadata, keywords' = [], topics = [], summary = None\<rparr>"

definition state_summarised :: state where
  "state_summarised =
     \<lparr>docs = set_summary ''h1'' 100 ''short'' [model_dump doc_a, model_dump doc_b],
      log = [], uuid_calls = 0\<rparr>"

definition env_failing :: "db_op \<Rightarrow> env" where
  "env_failing failing =
     env_ok\<lparr>motor_fault :=
       (\<lambda>op. if op = failing then Some (PyMongoError ''connection refused'') else None)\<rparr>"

section \<open>Properties of the repository\<close>

subsection \<open>\<^verbatim>\<open>set_summary\<close>\<close>

lemma update_one_set_length: "length (update_one_set i len s coll) = length coll"
  by (induction coll) auto

lemma update_one_set_other_fields:
  "k < length coll \<Longrightarrow>
   (update_one_set i len s coll ! k)\<lparr>summaries := x\<rparr> = (coll ! k)\<lparr>summaries := x\<rparr>"
  by (induction coll arbitrary: k) (auto simp: nth_Cons split: nat.splits)

lemma update_one_set_other_docs:
  "k < length coll \<Longrightarrow> id' (coll ! k) \<noteq> i \<Longrightarrow> update_one_set i len s coll ! k = coll ! k"
  by (induction coll arbitrary: k) (auto simp: nth_Cons split: nat.splits)

lemma update_one_set_other_keys:
  "k < length coll \<Longrightarrow> l \<noteq> len \<Longrightarrow>
   map_of (summaries (update_one_set i len s coll ! k)) l = map_of (summaries (coll ! k)) l"
  by (induction coll arbitrary: k) (auto simp: nth_Cons update_conv' split: nat.splits)

lemma update_one_set_absent:
  "i \<notin> id' ` set coll \<Longrightarrow> update_one_set i len s coll = coll"
  by (induction coll) auto

lemma update_one_set_target:
  "i \<in> id' ` set coll \<Longrightarrow>
   \<exists>k < length coll. id' (coll ! k) = i
      \<and> map_of (summaries (update_one_set i len s coll ! k)) len = Some s"
proof (induction coll)
  case Nil
  then show ?case by simp
next
  case (Cons r rs)
  show ?case
  proof (cases "id' r = i")
    case True
    then have "id' ((r # rs) ! 0) = i \<and>
        map_of (summaries (update_one_set i len s (r # rs) ! 0)) len = Some s"
      by (simp add: update_conv')
    then show ?thesis by blast
  next
    case False
    with Cons.prems have "i \<in> id' ` set rs" by auto
    from Cons.IH [OF this] obtain k where
      "k < length rs" "id' (rs ! k) = i"
      "map_of (summaries (update_one_set i len s rs ! k)) len = Some s" by blast
    with False have "Suc k < length (r # rs) \<and> id' ((r # rs) ! Suc k) = i \<and>
        map_of (summaries (update_one_set i len s (r # rs) ! Suc k)) len = Some s"
      by simp
    then show ?thesis by blast
  qed
qed

text \<open>
  C10. \<^verbatim>\<open>set_summary\<close> keeps the number and the order of the documents. At every
  position the document keeps all its fields other than \<^verbatim>\<open>summaries\<close>, and in
  \<^verbatim>\<open>summaries\<close> every entry for another length; a document with another identifier is
  left as it was. When a document has the identifier, it is one of them whose
  \<^verbatim>\<open>summaries[length]\<close> now is the given text. When no document has the identifier, the
  collection is unchanged; the operation is total, so nothing is raised.
\<close>

theorem set_summary_frame:
  "length (set_summary i len s coll) = length coll
   \<and> (\<forall>k < length coll.
        (set_summary i len s coll ! k)\<lparr>summaries := []\<rparr> = (coll ! k)\<lparr>summaries := []\<rparr>
        \<and> (\<forall>l. l \<noteq> len \<longrightarrow>
              map_of (summaries (set_summary i len s coll ! k)) l
              = map_of (summaries (coll ! k)) l)
        \<and> (id' (coll ! k) \<noteq> i \<longrightarrow> set_summary i len s coll ! k = coll ! k))
   \<and> (i \<in> id' ` set coll \<longrightarrow>
        (\<exists>k < length coll. id' (coll ! k) = i
           \<and> map_of (summaries (set_summary i len s coll ! k)) len = Some s))
   \<and> (i \<notin> id' ` set coll \<longrightarrow> set_summary i len s coll = coll)"
  unfolding set_summary_def
  using update_one_set_length update_one_set_other_fields update_one_set_other_docs
    update_one_set_other_keys update_one_set_target update_one_set_absent
  by presburger

theorem set_summary_frame_witness:
  "(1::nat) < length [model_dump doc_a, model_dump doc_b]
   \<and> id' ([model_dump doc_a, model_dump doc_b] ! 0) \<noteq> ''h2''
   \<and> ''h2'' \<in> id' ` set [model_dump doc_a, model_dump doc_b]
   \<and> ''h9'' \<notin> id' ` set [model_dump doc_a, model_dump doc_b]
   \<and> (200::int) \<noteq> 100
   \<and> set_summary ''h2'' 100 ''short'' [model_dump doc_a, model_dump doc_b] ! 0
       = model_dump doc_a
   \<and> map_of (summaries (set_summary ''h2'' 100 ''short''
                  [model_dump doc_a, model_dump doc_b] ! 1)) 200 = None
   \<and> map_of (summaries (set_summary ''h2'' 100 ''short''
                  [model_dump doc_a, model_dump doc_b] ! 1)) 100 = Some ''short''
   \<and> set_summary ''h9'' 100 ''short'' [model_dump doc_a, model_dump doc_b]
       = [model_dump doc_a, model_dump doc_b]"
  using set_summary_frame [of "''h2''" 100 "''short''" "[model_dump doc_a, model_dump doc_b]"]
    set_summary_frame [of "''h9''" 100 "''short''" "[model_dump doc_a, model_dump doc_b]"]
  by (simp add: set_summary_def model_dump_def doc_a_def doc_b_def
      parsed_document.defs raw_doc.defs)

subsection \<open>\<^verbatim>\<open>query\<close>\<close>

lemma query_neither:
  "query None None coll
     = Inl (ValueError ''At least one of topic or keyword must be provided'')"
  by (simp add: query_def)

lemma query_value_error_iff:
  "(\<exists>m. query topic keyword coll = Inl (ValueError m)) \<longleftrightarrow> topic = None \<and> keyword = None"
  by (auto simp: query_def find_or_def Let_def split: option.splits)

text \<open>
  With a non-empty topic or a non-empty keyword the stream is the documents matching
  one of the non-empty filters, in natural order, each with its text blanked.
\<close>

lemma query_truthy:
  "(topic \<noteq> None \<and> topic \<noteq> Some []) \<or> (keyword \<noteq> None \<and> keyword \<noteq> Some []) \<Longrightarrow>
   query topic keyword coll =
     Inr (map blank_text (filter (\<lambda>r.
        (\<exists>t. topic = Some t \<and> t \<noteq> [] \<and> t \<in> set (topics r))
        \<or> (\<exists>k. keyword = Some k \<and> k \<noteq> [] \<and> k \<in> set (keywords' r))) coll))"
  by (auto simp: query_def find_or_def Let_def split: option.splits intro!: filter_cong)

text \<open>
  C6. \<^verbatim>\<open>query(topic="")\<close> gives a topic and no keyword. The guard \<^verbatim>\<open>topic is None and
  keyword is None\<close> lets it pass, \<^verbatim>\<open>if topic:\<close> then adds no clause, and the filter sent
  is \<^verbatim>\<open>{"$or": []}\<close>, which the server rejects: the call raises, and not a ValueError.
\<close>

theorem query_empty_topic_raises:
  "query (Some []) None coll = Inl (PyMongoError ''$and/$or/$nor must be a nonempty array'')"
  by (simp add: query_def find_or_def)

subsection \<open>\<^verbatim>\<open>list_meta\<close>\<close>

lemma set_sort_descending: "set (sort_descending f xs) = set xs"
  by (simp add: sort_descending_def)

lemma length_list_meta: "length (list_meta coll) = length coll"
  by (simp add: list_meta_def sort_descending_def)

lemma set_list_meta: "set (list_meta coll) = blank_text ` set coll"
  by (simp add: list_meta_def set_sort_descending)

lemma model_dump_uploaded_at: "uploaded_at (model_dump d) = None"
  by (simp add: model_dump_def parsed_document.defs raw_doc.defs)

text \<open>
  With no document carrying \<^verbatim>\<open>uploaded_at\<close> the sort leaves the natural order.
\<close>

lemma sorted_no_uploaded_at:
  "\<forall>r \<in> set xs. uploaded_at r = None \<Longrightarrow> sorted (map uploaded_at xs)"
  by (induction xs) auto

lemma list_meta_no_uploaded_at:
  assumes "\<forall>r \<in> set coll. uploaded_at r = None"
  shows "list_meta coll = map blank_text coll"
proof -
  have "sorted (map uploaded_at (rev coll))"
    using assms by (intro sorted_no_uploaded_at) simp
  then have "sort_key uploaded_at (rev coll) = rev coll"
    by (rule sort_key_id_if_sorted)
  then show ?thesis
    by (simp add: list_meta_def sort_descending_def)
qed

text \<open>
  C7. \<^verbatim>\<open>doc_a\<close> is stored first and \<^verbatim>\<open>doc_b\<close> after it. Neither stored document has
  the field \<^verbatim>\<open>uploaded_at\<close> (\<^verbatim>\<open>upsert\<close> writes the dump of a \<^verbatim>\<open>ParsedDocument\<close>, which has
  no such field), so the sort has nothing to order by, and \<^verbatim>\<open>list_meta\<close> yields the older
  document first.
\<close>

theorem list_meta_oldest_first:
  "list_meta (snd (upsert u2 doc_b (snd (upsert u1 doc_a []))))
     = [doc_a\<lparr>text' := []\<rparr>, doc_b\<lparr>text' := []\<rparr>]
   \<and> map uploaded_at (snd (upsert u2 doc_b (snd (upsert u1 doc_a [])))) = [None, None]"
  by (simp add: list_meta_def sort_descending_def upsert_def model_dump_def blank_text_def
      ParsedDocument_def doc_a_def doc_b_def parsed_document.defs raw_doc.defs)

section \<open>Properties of the handlers\<close>

lemma logger_docs [simp]:
  "docs (logger_info m s) = docs s"
  "docs (logger_warning m s) = docs s"
  "docs (logger_error m s) = docs s"
  by (simp_all add: logger_info_def logger_warning_def logger_error_def)

lemma logger_uuid [simp]:
  "uuid_calls (logger_info m s) = uuid_calls s"
  "uuid_calls (logger_warning m s) = uuid_calls s"
  "uuid_calls (logger_error m s) = uuid_calls s"
  by (simp_all add: logger_info_def logger_warning_def logger_error_def)

lemma logger_log [simp]:
  "log (logger_info m s) = log s @ [(INFO, m)]"
  "log (logger_warning m s) = log s @ [(WARNING, m)]"
  "log (logger_error m s) = log s @ [(ERROR, m)]"
  by (simp_all add: logger_info_def logger_warning_def logger_error_def)

lemma process_file_returns: "fst (process_file env p force s) = Inr ()"
  by (simp add: process_file_def split: prod.splits sum.splits)

lemma handle_deleted_file_returns: "fst (handle_deleted_file env p s) = Inr ()"
  by (simp add: handle_deleted_file_def split: prod.splits sum.splits)

lemma handle_moved_file_returns: "fst (handle_moved_file env p q s) = Inr ()"
  by (simp add: handle_moved_file_def split: prod.splits sum.splits)

subsection \<open>Failures of the store\<close>

text \<open>
  C9, as the claim states it, fails: with the store refusing \<^verbatim>\<open>get_id_by_path\<close>, the
  call of \<^verbatim>\<open>process_file\<close> does not raise the store's exception to its caller.
\<close>

theorem store_error_counterexample:
  "motor_fault env_store_down GetIdByPath = Some (PyMongoError ''connection refused'')
   \<and> fst (process_file env_store_down ''/in/a.txt'' False state_empty)
       \<noteq> Inl (PyMongoError ''connection refused'')"
  by (simp add: process_file_returns env_store_down_def)

text \<open>
  C9, amended. \<^verbatim>\<open>process_file\<close> and \<^verbatim>\<open>handle_deleted_file\<close> return to their caller
  whatever happens in them. Whichever operation of the store fails (the connection, the
  lookup by path, the delete of a forced update, the write, the delete of the record),
  the call returns, the log gains exactly one error record carrying the text of the
  exception, after the records logged before the failure, and nothing is written: the
  collection is as the operations before the failing one left it.
\<close>

theorem store_error_is_caught:
  "fst (process_file env p force s) = Inr ()
   \<and> fst (handle_deleted_file env p s) = Inr ()
   \<and> (motor_fault env Connect = None \<longrightarrow> motor_fault env GetIdByPath = Some e \<longrightarrow>
        process_file env p force s
          = (Inr (), logger_error (''Error processing file '' @ p @ '': '' @ str e) s)
        \<and> handle_deleted_file env p s
          = (Inr (), logger_error (''Error handling deleted file '' @ p @ '': '' @ str e)
                       (logger_info (''Handling deleted file: '' @ p) s)))
   \<and> (motor_fault env Connect = Some e \<longrightarrow>
        process_file env p force s
          = (Inr (), logger_error (''Error processing file '' @ p @ '': '' @ str e) s)
        \<and> handle_deleted_file env p s
          = (Inr (), logger_error (''Error handling deleted file '' @ p @ '': '' @ str e)
                       (logger_info (''Handling deleted file: '' @ p) s)))
   \<and> (motor_fault env Connect = None \<longrightarrow> motor_fault env GetIdByPath = None \<longrightarrow>
        get_id_by_path p (docs s) = Some doc_id \<longrightarrow> motor_fault env DeleteByPath = Some e \<longrightarrow>
        process_file env p True s
          = (Inr (), logger_error (''Error processing file '' @ p @ '': '' @ str e)
                       (logger_info (''Force updating existing document: '' @ doc_id) s)))
   \<and> (motor_fault env Connect = None \<longrightarrow> motor_fault env GetIdByPath = None \<longrightarrow>
        get_id_by_path p (docs s) = None \<longrightarrow>
        parse_file env p = Inr d \<longrightarrow> extract_document_info env (text' d) = Inr doc_info \<longrightarrow>
        motor_fault env Upsert = Some e \<longrightarrow>
        docs (snd (process_file env p force s)) = docs s
        \<and> log (snd (process_file env p force s))
            = log s @ [(INFO, ''Processing new file: '' @ p),
                       (ERROR, ''Error processing file '' @ p @ '': '' @ str e)])
   \<and> (motor_fault env Connect = None \<longrightarrow> motor_fault env GetIdByPath = None \<longrightarrow>
        get_id_by_path p (docs s) = Some doc_id \<longrightarrow> motor_fault env DeleteByPath = None \<longrightarrow>
        parse_file env p = Inr d \<longrightarrow> extract_document_info env (text' d) = Inr doc_info \<longrightarrow>
        motor_fault env Upsert = Some e \<longrightarrow>
        docs (snd (process_file env p True s)) = snd (delete_by_path p (docs s))
        \<and> log (snd (process_file env p True s))
            = log s @ [(INFO, ''Force updating existing document: '' @ doc_id),
                       (INFO, ''Processing new file: '' @ p),
                       (ERROR, ''Error processing file '' @ p @ '': '' @ str e)])
   \<and> (motor_fault env Connect = None \<longrightarrow> motor_fault env GetIdByPath = None \<longrightarrow>
        get_id_by_path p (docs s) = Some doc_id \<longrightarrow> doc_id \<noteq> [] \<longrightarrow>
        motor_fault env Delete = Some e \<longrightarrow>
        handle_deleted_file env p s
          = (Inr (), logger_error (''Error handling deleted file '' @ p @ '': '' @ str e)
                       (logger_info (''Handling deleted file: '' @ p) s)))"
proof -
  have lookup: "motor_fault env Connect = None \<Longrightarrow> motor_fault env GetIdByPath = Some e \<Longrightarrow>
        process_file env p force s
          = (Inr (), logger_error (''Error processing file '' @ p @ '': '' @ str e) s)
        \<and> handle_deleted_file env p s
          = (Inr (), logger_error (''Error handling deleted file '' @ p @ '': '' @ str e)
                       (logger_info (''Handling deleted file: '' @ p) s))"
    by (simp add: process_file_def process_file_try_def handle_deleted_file_def
        handle_deleted_file_try_def get_database_def db_get_id_by_path_def)
  have connect: "motor_fault env Connect = Some e \<Longrightarrow>
        process_file env p force s
          = (Inr (), logger_error (''Error processing file '' @ p @ '': '' @ str e) s)
        \<and> handle_deleted_file env p s
          = (Inr (), logger_error (''Error handling deleted file '' @ p @ '': '' @ str e)
                       (logger_info (''Handling deleted file: '' @ p) s))"
    by (simp add: process_file_def process_file_try_def handle_deleted_file_def
        handle_deleted_file_try_def get_database_def)
  have delete_by_path: "motor_fault env Connect = None \<Longrightarrow> motor_fault env GetIdByPath = None \<Longrightarrow>
        get_id_by_path p (docs s) = Some doc_id \<Longrightarrow> motor_fault env DeleteByPath = Some e \<Longrightarrow>
        process_file env p True s
          = (Inr (), logger_error (''Error processing file '' @ p @ '': '' @ str e)
                       (logger_info (''Force updating existing document: '' @ doc_id) s))"
    by (simp add: process_file_def process_file_try_def get_database_def
        db_get_id_by_path_def db_delete_by_path_def)
  have new: "docs (snd (process_file_new env p s')) = docs s'
      \<and> log (snd (process_file_new env p s')) = log s' @ [(INFO, ''Processing new file: '' @ p)]
      \<and> fst (process_file_new env p s') = Inl e"
    if "parse_file env p = Inr d" "extract_document_info env (text' d) = Inr doc_info"
      "motor_fault env Upsert = Some e" for s'
  proof -
    have "map_of (registry env) (str_lower (path_suffix p)) \<noteq> None"
      using that(1) by (auto simp: parse_file_def Let_def split: option.splits)
    then show ?thesis
      using that by (simp add: process_file_new_def db_upsert_def Let_def)
  qed
  have upsert_new: "docs (snd (process_file env p force s)) = docs s
        \<and> log (snd (process_file env p force s))
            = log s @ [(INFO, ''Processing new file: '' @ p),
                       (ERROR, ''Error processing file '' @ p @ '': '' @ str e)]"
    if "motor_fault env Connect = None" "motor_fault env GetIdByPath = None"
      "get_id_by_path p (docs s) = None"
      "parse_file env p = Inr d" "extract_document_info env (text' d) = Inr doc_info"
      "motor_fault env Upsert = Some e"
  proof -
    have "process_file_try env p force s = process_file_new env p s"
      using that(1-3)
      by (simp add: process_file_try_def get_database_def db_get_id_by_path_def)
    then show ?thesis
      using new [OF that(4-6), of s]
      by (cases "process_file_new env p s") (simp add: process_file_def)
  qed
  have upsert_forced: "docs (snd (process_file env p True s)) = snd (delete_by_path p (docs s))
        \<and> log (snd (process_file env p True s))
            = log s @ [(INFO, ''Force updating existing document: '' @ doc_id),
                       (INFO, ''Processing new file: '' @ p),
                       (ERROR, ''Error processing file '' @ p @ '': '' @ str e)]"
    if "motor_fault env Connect = None" "motor_fault env GetIdByPath = None"
      "get_id_by_path p (docs s) = Some doc_id" "motor_fault env DeleteByPath = None"
      "parse_file env p = Inr d" "extract_document_info env (text' d) = Inr doc_info"
      "motor_fault env Upsert = Some e"
  proof -
    let ?s1 = "(logger_info (''Force updating existing document: '' @ doc_id) s)
                 \<lparr>docs := snd (delete_by_path p (docs s))\<rparr>"
    have "process_file_try env p True s = process_file_new env p ?s1"
      using that(1-4)
      by (simp add: process_file_try_def get_database_def db_get_id_by_path_def
          db_delete_by_path_def)
    then show ?thesis
      using new [OF that(5-7), of ?s1]
      by (cases "process_file_new env p ?s1") (simp add: process_file_def)
  qed
  have delete: "motor_fault env Connect = None \<Longrightarrow> motor_fault env GetIdByPath = None \<Longrightarrow>
        get_id_by_path p (docs s) = Some doc_id \<Longrightarrow> doc_id \<noteq> [] \<Longrightarrow>
        motor_fault env Delete = Some e \<Longrightarrow>
        handle_deleted_file env p s
          = (Inr (), logger_error (''Error handling deleted file '' @ p @ '': '' @ str e)
                       (logger_info (''Handling deleted file: '' @ p) s))"
    by (simp add: handle_deleted_file_def handle_deleted_file_try_def get_database_def
        db_get_id_by_path_def db_delete_def)
  show ?thesis
    using process_file_returns [of env p force s] handle_deleted_file_returns [of env p s]
      lookup connect delete_by_path upsert_new upsert_forced delete
    by blast
qed


lemma env_failing_fault:
  "motor_fault (env_failing failing) op
     = (if op = failing then Some (PyMongoError ''connection refused'') else None)"
  by (simp add: env_failing_def)

lemma parse_a_upsert_failing: "parse_file (env_failing Upsert) ''/in/a.txt'' = Inr parsed_a"
  by code_simp

lemma enrich_a_upsert_failing:
  "extract_document_info (env_failing Upsert) (text' parsed_a) = Inr example_extraction"
  by code_simp

lemma lookup_a_state_ab: "get_id_by_path ''/in/a.txt'' (docs state_ab) = Some ''h1''"
  by code_simp

lemma lookup_a_state_empty: "get_id_by_path ''/in/a.txt'' (docs state_empty) = None"
  by code_simp

theorem store_error_is_caught_witness:
  "motor_fault env_store_down Connect = None
   \<and> motor_fault env_store_down GetIdByPath = Some (PyMongoError ''connection refused'')
   \<and> process_file env_store_down ''/in/a.txt'' True state_ab
       = (Inr (), state_ab\<lparr>log :=
            [(ERROR, ''Error processing file /in/a.txt: connection refused'')]\<rparr>)
   \<and> motor_fault (env_failing Connect) Connect = Some (PyMongoError ''connection refused'')
   \<and> log (snd (process_file (env_failing Connect) ''/in/a.txt'' False state_ab))
       = [(ERROR, ''Error processing file /in/a.txt: connection refused'')]
   \<and> log (snd (handle_deleted_file (env_failing Connect) ''/in/a.txt'' state_ab))
       = [(INFO, ''Handling deleted file: /in/a.txt''),
          (ERROR, ''Error handling deleted file /in/a.txt: connection refused'')]
   \<and> motor_fault (env_failing DeleteByPath) DeleteByPath
       = Some (PyMongoError ''connection refused'')
   \<and> get_id_by_path ''/in/a.txt'' (docs state_ab) = Some ''h1''
   \<and> log (snd (process_file (env_failing DeleteByPath) ''/in/a.txt'' True state_ab))
       = [(INFO, ''Force updating existing document: h1''),
          (ERROR, ''Error processing file /in/a.txt: connection refused'')]
   \<and> motor_fault (env_failing Upsert) Upsert = Some (PyMongoError ''connection refused'')
   \<and> get_id_by_path ''/in/a.txt'' (docs state_empty) = None
   \<and> parse_file (env_failing Upsert) ''/in/a.txt'' = Inr parsed_a
   \<and> extract_document_info (env_failing Upsert) (text' parsed_a) = Inr example_extraction
   \<and> docs (snd (process_file (env_failing Upsert) ''/in/a.txt'' False state_empty)) = []
   \<and> log (snd (process_file (env_failing Upsert) ''/in/a.txt'' False state_empty))
       = [(INFO, ''Processing new file: /in/a.txt''),
          (ERROR, ''Error processing file /in/a.txt: connection refused'')]
   \<and> docs (snd (process_file (env_failing Upsert) ''/in/a.txt'' True state_ab))
       = [model_dump doc_b]
   \<and> log (snd (process_file (env_failing Upsert) ''/in/a.txt'' True state_ab))
       = [(INFO, ''Force updating existing document: h1''),
          (INFO, ''Processing new file: /in/a.txt''),
          (ERROR, ''Error processing file /in/a.txt: connection refused'')]
   \<and> motor_fault (env_failing Delete) Delete = Some (PyMongoError ''connection refused'')
   \<and> ''h1'' \<noteq> []
   \<and> docs (snd (handle_deleted_file (env_failing Delete) ''/in/a.txt'' state_ab))
       = docs state_ab
   \<and> log (snd (handle_deleted_file (env_failing Delete) ''/in/a.txt'' state_ab))
       = [(INFO, ''Handling deleted file: /in/a.txt''),
          (ERROR, ''Error handling deleted file /in/a.txt: connection refused'')]"
proof -
  let ?e = "PyMongoError ''connection refused''"
  have logs: "log state_ab = []" "log state_empty = []" "docs state_empty = []"
    by (simp_all add: state_ab_def state_empty_def)
  have down: "process_file env_store_down ''/in/a.txt'' True state_ab
       = (Inr (), state_ab\<lparr>log :=
            [(ERROR, ''Error processing file /in/a.txt: connection refused'')]\<rparr>)"
    "motor_fault env_store_down Connect = None"
    "motor_fault env_store_down GetIdByPath = Some ?e"
    using store_error_is_caught [of env_store_down "''/in/a.txt''" True state_ab ?e]
    by (simp_all add: env_store_down_def logger_error_def state_ab_def)
  have connect:
    "log (snd (process_file (env_failing Connect) ''/in/a.txt'' False state_ab))
       = [(ERROR, ''Error processing file /in/a.txt: connection refused'')]"
    "log (snd (handle_deleted_file (env_failing Connect) ''/in/a.txt'' state_ab))
       = [(INFO, ''Handling deleted file: /in/a.txt''),
          (ERROR, ''Error handling deleted file /in/a.txt: connection refused'')]"
    using store_error_is_caught [of "env_failing Connect" "''/in/a.txt''" False state_ab ?e]
    by (simp_all add: env_failing_fault logs)
  have delete_by_path:
    "log (snd (process_file (env_failing DeleteByPath) ''/in/a.txt'' True state_ab))
       = [(INFO, ''Force updating existing document: h1''),
          (ERROR, ''Error processing file /in/a.txt: connection refused'')]"
    using store_error_is_caught [of "env_failing DeleteByPath" "''/in/a.txt''" True state_ab
        ?e "''h1''"]
    by (simp add: env_failing_fault logs lookup_a_state_ab)
  have upsert_new:
    "docs (snd (process_file (env_failing Upsert) ''/in/a.txt'' False state_empty)) = []"
    "log (snd (process_file (env_failing Upsert) ''/in/a.txt'' False state_empty))
       = [(INFO, ''Processing new file: /in/a.txt''),
          (ERROR, ''Error processing file /in/a.txt: connection refused'')]"
    using store_error_is_caught [of "env_failing Upsert" "''/in/a.txt''" False state_empty
        ?e "''h1''" parsed_a example_extraction]
    by (simp_all add: env_failing_fault logs get_id_by_path_def parse_a_upsert_failing
        enrich_a_upsert_failing)
  have rest: "snd (delete_by_path ''/in/a.txt'' (docs state_ab)) = [model_dump doc_b]"
    by (simp add: delete_by_path_def state_ab_def model_dump_def doc_a_def doc_b_def
        parsed_document.defs)
  have upsert_forced:
    "docs (snd (process_file (env_failing Upsert) ''/in/a.txt'' True state_ab))
       = [model_dump doc_b]"
    "log (snd (process_file (env_failing Upsert) ''/in/a.txt'' True state_ab))
       = [(INFO, ''Force updating existing document: h1''),
          (INFO, ''Processing new file: /in/a.txt''),
          (ERROR, ''Error processing file /in/a.txt: connection refused'')]"
    using store_error_is_caught [of "env_failing Upsert" "''/in/a.txt''" True state_ab
        ?e "''h1''" parsed_a example_extraction]
    by (simp_all add: env_failing_fault logs lookup_a_state_ab parse_a_upsert_failing
        enrich_a_upsert_failing rest)
  have delete:
    "docs (snd (handle_deleted_file (env_failing Delete) ''/in/a.txt'' state_ab))
       = docs state_ab"
    "log (snd (handle_deleted_file (env_failing Delete) ''/in/a.txt'' state_ab))
       = [(INFO, ''Handling deleted file: /in/a.txt''),
          (ERROR, ''Error handling deleted file /in/a.txt: connection refused'')]"
    using store_error_is_caught [of "env_failing Delete" "''/in/a.txt''" True state_ab
        ?e "''h1''"]
    by (simp_all add: env_failing_fault logs lookup_a_state_ab)
  show ?thesis
    using down connect delete_by_path upsert_new upsert_forced delete
    by (simp add: env_failing_fault lookup_a_state_ab lookup_a_state_empty
        parse_a_upsert_failing enrich_a_upsert_failing)
qed

subsection \<open>Files without a parser\<close>

lemma suffix_a_bin: "str_lower (path_suffix ''/in/a.bin'') = ''.bin''"
  by code_simp

text \<open>
  C8. For a file whose extension has no parser in the registry and whose path has no
  record, \<^verbatim>\<open>process_file\<close> without a forced update returns to its caller, leaves the
  collection as it was and adds one record to the log, whether the store answers or fails.
\<close>

theorem unsupported_extension_inert:
  assumes "map_of (registry env) (str_lower (path_suffix p)) = None"
    and "get_id_by_path p (docs s) = None"
  shows "fst (process_file env p False s) = Inr ()
    \<and> docs (snd (process_file env p False s)) = docs s
    \<and> length (log (snd (process_file env p False s))) = Suc (length (log s))"
  using assms
  by (simp add: process_file_def process_file_try_def process_file_new_def
      get_database_def db_get_id_by_path_def split: option.splits)

theorem unsupported_extension_inert_witness:
  "map_of (registry env_ok) (str_lower (path_suffix ''/in/a.bin'')) = None
   \<and> get_id_by_path ''/in/a.bin'' (docs state_ab) = None
   \<and> fst (process_file env_ok ''/in/a.bin'' False state_ab) = Inr ()
   \<and> docs (snd (process_file env_ok ''/in/a.bin'' False state_ab)) = docs state_ab"
  using unsupported_extension_inert [of env_ok "''/in/a.bin''" state_ab]
  by (simp add: suffix_a_bin env_ok_def state_ab_def get_id_by_path_def model_dump_def
      doc_a_def doc_b_def parsed_document.defs raw_doc.defs)

subsection \<open>\<^verbatim>\<open>process_file\<close>\<close>

lemma get_id_by_path_None_iff: "get_id_by_path p coll = None \<longleftrightarrow> (\<forall>r \<in> set coll. path r \<noteq> p)"
  by (induction coll) (auto simp: get_id_by_path_def)

lemma get_id_by_path_filter: "get_id_by_path p coll = None \<longleftrightarrow> filter (\<lambda>r. path r = p) coll = []"
  by (simp add: get_id_by_path_None_iff filter_empty_conv)

lemma filter_replace_one_upsert_le:
  "length (filter P (replace_one_upsert d coll)) \<le> Suc (length (filter P coll))"
  by (induction coll) auto

text \<open>What a call of process_file can do to the collection.\<close>

lemma process_file_new_docs:
  "docs (snd (process_file_new env p s)) = docs s
   \<or> (\<exists>d. docs (snd (process_file_new env p s)) = replace_one_upsert d (docs s))"
  by (auto simp: process_file_new_def db_upsert_def upsert_def Let_def
      split: sum.splits option.splits prod.splits)

lemma process_file_skip_docs:
  "get_id_by_path p (docs s) \<noteq> None \<Longrightarrow> docs (snd (process_file env p False s)) = docs s"
  by (auto simp: process_file_def process_file_try_def get_database_def db_get_id_by_path_def
      split: option.splits sum.splits prod.splits)

lemma process_file_fresh_docs:
  "get_id_by_path p (docs s) = None \<Longrightarrow>
   docs (snd (process_file env p force s)) = docs s
   \<or> (\<exists>d. docs (snd (process_file env p force s)) = replace_one_upsert d (docs s))"
  using process_file_new_docs [of env p s]
  by (auto simp: process_file_def process_file_try_def get_database_def db_get_id_by_path_def
      split: option.splits sum.splits prod.splits)

text \<open>
  C1. When a record has the path, \<^verbatim>\<open>process_file\<close> without a forced update leaves the
  collection as it was; when the store answers, it is the skip branch that returns, with
  one log line and nothing parsed, enriched or written. So when a path without a record has
  one after a first call, a second call changes nothing and the collection holds exactly
  one record with that path.
\<close>

theorem reingestion_idempotent:
  "(get_id_by_path p (docs s) \<noteq> None \<longrightarrow>
      docs (snd (process_file env p False s)) = docs s)
   \<and> (motor_fault env Connect = None \<longrightarrow> motor_fault env GetIdByPath = None \<longrightarrow>
        get_id_by_path p (docs s) = Some doc_id \<longrightarrow>
        process_file env p False s
          = (Inr (), logger_info (''Document already exists, skipping: '' @ doc_id) s))
   \<and> (get_id_by_path p (docs s) = None \<longrightarrow>
        get_id_by_path p (docs (snd (process_file env p False s))) \<noteq> None \<longrightarrow>
        docs (snd (process_file env p False (snd (process_file env p False s))))
          = docs (snd (process_file env p False s))
        \<and> length (filter (\<lambda>r. path r = p)
             (docs (snd (process_file env p False (snd (process_file env p False s)))))) = 1)"
proof -
  have skip: "motor_fault env Connect = None \<Longrightarrow> motor_fault env GetIdByPath = None \<Longrightarrow>
        get_id_by_path p (docs s) = Some doc_id \<Longrightarrow>
        process_file env p False s
          = (Inr (), logger_info (''Document already exists, skipping: '' @ doc_id) s)"
    by (simp add: process_file_def process_file_try_def get_database_def db_get_id_by_path_def)
  have twice: "length (filter (\<lambda>r. path r = p)
             (docs (snd (process_file env p False (snd (process_file env p False s)))))) = 1"
    "docs (snd (process_file env p False (snd (process_file env p False s))))
          = docs (snd (process_file env p False s))"
    if none: "get_id_by_path p (docs s) = None"
      and some: "get_id_by_path p (docs (snd (process_file env p False s))) \<noteq> None"
  proof -
    let ?s1 = "snd (process_file env p False s)"
    show same: "docs (snd (process_file env p False ?s1)) = docs ?s1"
      using some by (rule process_file_skip_docs)
    have zero: "filter (\<lambda>r. path r = p) (docs s) = []"
      using none by (simp add: get_id_by_path_filter)
    have "length (filter (\<lambda>r. path r = p) (docs ?s1)) \<le> 1"
      using process_file_fresh_docs [OF none, of env False]
        filter_replace_one_upsert_le [of "\<lambda>r. path r = p" _ "docs s"] zero
      by auto
    moreover have "filter (\<lambda>r. path r = p) (docs ?s1) \<noteq> []"
      using some by (simp add: get_id_by_path_filter)
    ultimately have "length (filter (\<lambda>r. path r = p) (docs ?s1)) = 1"
      by (cases "filter (\<lambda>r. path r = p) (docs ?s1)") auto
    then show "length (filter (\<lambda>r. path r = p)
             (docs (snd (process_file env p False ?s1)))) = 1"
      by (simp only: same)
  qed
  show ?thesis
    using skip twice process_file_skip_docs [of p s env] by blast
qed


lemma suffix_a_txt: "str_lower (path_suffix ''/in/a.txt'') = ''.txt''"
  by code_simp

lemma name_a_txt: "path_name ''/in/a.txt'' = ''a.txt''"
  by code_simp

lemma get_id_by_path_after_first:
  "get_id_by_path ''/in/a.txt'' (docs (snd (process_file env_ok ''/in/a.txt'' False state_empty)))
     = Some ''md5-a.txt''"
  by code_simp

theorem reingestion_idempotent_witness:
  "get_id_by_path ''/in/a.txt'' (docs state_ab) = Some ''h1''
   \<and> motor_fault env_ok Connect = None \<and> motor_fault env_ok GetIdByPath = None
   \<and> process_file env_ok ''/in/a.txt'' False state_ab
       = (Inr (), logger_info (''Document already exists, skipping: '' @ ''h1'') state_ab)
   \<and> get_id_by_path ''/in/a.txt'' (docs state_empty) = None
   \<and> get_id_by_path ''/in/a.txt''
        (docs (snd (process_file env_ok ''/in/a.txt'' False state_empty))) \<noteq> None
   \<and> length (filter (\<lambda>r. path r = ''/in/a.txt'')
        (docs (snd (process_file env_ok ''/in/a.txt'' False
                 (snd (process_file env_ok ''/in/a.txt'' False state_empty)))))) = 1"
proof -
  have h1: "get_id_by_path ''/in/a.txt'' (docs state_ab) = Some ''h1''"
    by code_simp
  have h2: "motor_fault env_ok Connect = None" "motor_fault env_ok GetIdByPath = None"
    by (simp_all add: env_ok_def)
  have h3: "get_id_by_path ''/in/a.txt'' (docs state_empty) = None"
    by (simp add: state_empty_def get_id_by_path_def)
  have h4: "get_id_by_path ''/in/a.txt''
        (docs (snd (process_file env_ok ''/in/a.txt'' False state_empty))) \<noteq> None"
    by (simp add: get_id_by_path_after_first)
  show ?thesis
    using reingestion_idempotent [of "''/in/a.txt''" state_ab env_ok "''h1''"]
      reingestion_idempotent [of "''/in/a.txt''" state_empty env_ok] h1 h2 h3 h4
    by blast
qed

lemma process_file_docs:
  "docs (snd (process_file env p force s)) = docs (snd (process_file_try env p force s))"
  by (simp add: process_file_def split: prod.splits sum.splits)

lemma delete_by_path_lookup: "get_id_by_path p (snd (delete_by_path p coll)) = None"
  by (simp add: get_id_by_path_None_iff delete_by_path_def)

text \<open>
  C2. For a file that parses and whose enrichment raises, \<^verbatim>\<open>process_file\<close> returns to
  its caller and writes no record: the collection is as before, or as before without the
  records of that path (the delete of a forced update). Whenever the enrichment is
  reached (no record had the path, or the update is forced and the store answers) no
  record has the file's path afterwards, and the last log record is the error with the
  text of the exception.
\<close>

theorem enrichment_failure_persists_nothing:
  assumes parse: "parse_file env p = Inr d"
    and enrich: "extract_document_info env (text' d) = Inl e"
  shows "fst (process_file env p force s) = Inr ()
    \<and> (docs (snd (process_file env p force s)) = docs s
        \<or> docs (snd (process_file env p force s)) = snd (delete_by_path p (docs s)))
    \<and> (get_id_by_path p (docs s) = None
          \<or> force \<and> motor_fault env Connect = None \<and> motor_fault env GetIdByPath = None
             \<and> motor_fault env DeleteByPath = None
        \<longrightarrow> get_id_by_path p (docs (snd (process_file env p force s))) = None)
    \<and> (motor_fault env Connect = None \<and> motor_fault env GetIdByPath = None
        \<and> (get_id_by_path p (docs s) = None \<or> force \<and> motor_fault env DeleteByPath = None)
        \<longrightarrow> last (log (snd (process_file env p force s)))
              = (ERROR, ''Error processing file '' @ p @ '': '' @ str e))"
proof -
  have reg: "map_of (registry env) (str_lower (path_suffix p)) \<noteq> None"
    using parse by (auto simp: parse_file_def Let_def split: option.splits)
  have new: "process_file_new env p s' =
      (Inl e, logger_info (''Processing new file: '' @ p) s')" for s'
    using reg parse enrich by (simp add: process_file_new_def)
  have docs: "docs (snd (process_file env p force s)) = docs s
        \<or> docs (snd (process_file env p force s)) = snd (delete_by_path p (docs s))"
    by (auto simp: process_file_def process_file_try_def new get_database_def
        db_get_id_by_path_def db_delete_by_path_def split: option.splits)
  have gone: "get_id_by_path p (docs (snd (process_file env p force s))) = None"
    if "get_id_by_path p (docs s) = None
          \<or> force \<and> motor_fault env Connect = None \<and> motor_fault env GetIdByPath = None
             \<and> motor_fault env DeleteByPath = None"
    using that delete_by_path_lookup [of p "docs s"]
    by (auto simp: process_file_def process_file_try_def new get_database_def
        db_get_id_by_path_def db_delete_by_path_def split: option.splits)
  have logged: "last (log (snd (process_file env p force s)))
              = (ERROR, ''Error processing file '' @ p @ '': '' @ str e)"
    if "motor_fault env Connect = None \<and> motor_fault env GetIdByPath = None
        \<and> (get_id_by_path p (docs s) = None \<or> force \<and> motor_fault env DeleteByPath = None)"
    using that
    by (auto simp: process_file_def process_file_try_def new get_database_def
        db_get_id_by_path_def db_delete_by_path_def split: option.splits)
  show ?thesis
    using process_file_returns [of env p force s] docs gone logged by blast
qed

text \<open>
  C5. With a record at the path and a store that answers, a forced \<^verbatim>\<open>process_file\<close>
  whose extension has no parser, or whose parse raises, or whose enrichment raises,
  returns with the records of that path deleted and nothing in their place: the lookup
  by path finds nothing, and the collection differs from the one before.
\<close>

theorem force_update_not_atomic:
  assumes "motor_fault env Connect = None"
    and "motor_fault env GetIdByPath = None"
    and "motor_fault env DeleteByPath = None"
    and found: "get_id_by_path p (docs s) = Some doc_id"
    and fails: "map_of (registry env) (str_lower (path_suffix p)) = None
       \<or> (\<exists>e. parse_file env p = Inl e)
       \<or> (\<exists>d e. parse_file env p = Inr d \<and> extract_document_info env (text' d) = Inl e)"
  shows "fst (process_file env p True s) = Inr ()
    \<and> docs (snd (process_file env p True s)) = filter (\<lambda>r. path r \<noteq> p) (docs s)
    \<and> get_id_by_path p (docs (snd (process_file env p True s))) = None
    \<and> docs (snd (process_file env p True s)) \<noteq> docs s"
proof -
  have new: "docs (snd (process_file_new env p s')) = docs s'" for s'
    using fails
    by (auto simp: process_file_new_def split: sum.splits prod.splits)
  have "process_file_try env p True s = process_file_new env p
         ((logger_info (''Force updating existing document: '' @ doc_id) s)
            \<lparr>docs := snd (delete_by_path p (docs s))\<rparr>)"
    using assms(1-4)
    by (simp add: process_file_try_def get_database_def db_get_id_by_path_def
        db_delete_by_path_def)
  then have docs: "docs (snd (process_file env p True s)) = filter (\<lambda>r. path r \<noteq> p) (docs s)"
    by (simp add: process_file_docs new delete_by_path_def)
  have none: "get_id_by_path p (filter (\<lambda>r. path r \<noteq> p) (docs s)) = None"
    by (simp add: get_id_by_path_None_iff)
  have "get_id_by_path p (docs s) \<noteq> None" using found by simp
  with none have "filter (\<lambda>r. path r \<noteq> p) (docs s) \<noteq> docs s" by metis
  with docs none show ?thesis
    using process_file_returns [of env p True s] by simp
qed


lemma parse_a_enrich_fails: "parse_file env_enrich_fails ''/in/a.txt'' = Inr parsed_a"
  by code_simp

lemma enrich_a_fails:
  "extract_document_info env_enrich_fails (text' parsed_a) = Inl (Exception ''malformed output'')"
  by code_simp

lemma env_enrich_fails_healthy: "motor_fault env_enrich_fails op = None"
  by (simp add: env_enrich_fails_def env_ok_def)

theorem enrichment_failure_persists_nothing_witness:
  "parse_file env_enrich_fails ''/in/a.txt'' = Inr parsed_a
   \<and> extract_document_info env_enrich_fails (text' parsed_a) = Inl (Exception ''malformed output'')
   \<and> motor_fault env_enrich_fails Connect = None
   \<and> motor_fault env_enrich_fails GetIdByPath = None
   \<and> motor_fault env_enrich_fails DeleteByPath = None
   \<and> fst (process_file env_enrich_fails ''/in/a.txt'' True state_ab) = Inr ()
   \<and> get_id_by_path ''/in/a.txt''
        (docs (snd (process_file env_enrich_fails ''/in/a.txt'' True state_ab))) = None
   \<and> last (log (snd (process_file env_enrich_fails ''/in/a.txt'' True state_ab)))
        = (ERROR, ''Error processing file '' @ ''/in/a.txt'' @ '': ''
                    @ str (Exception ''malformed output''))"
  using enrichment_failure_persists_nothing [OF parse_a_enrich_fails enrich_a_fails, of True state_ab]
    parse_a_enrich_fails enrich_a_fails env_enrich_fails_healthy
  by blast

theorem force_update_not_atomic_witness:
  "motor_fault env_enrich_fails Connect = None
   \<and> motor_fault env_enrich_fails GetIdByPath = None
   \<and> motor_fault env_enrich_fails DeleteByPath = None
   \<and> get_id_by_path ''/in/a.txt'' (docs state_ab) = Some ''h1''
   \<and> parse_file env_enrich_fails ''/in/a.txt'' = Inr parsed_a
   \<and> extract_document_info env_enrich_fails (text' parsed_a) = Inl (Exception ''malformed output'')
   \<and> docs (snd (process_file env_enrich_fails ''/in/a.txt'' True state_ab))
        = filter (\<lambda>r. path r \<noteq> ''/in/a.txt'') (docs state_ab)
   \<and> get_id_by_path ''/in/a.txt''
        (docs (snd (process_file env_enrich_fails ''/in/a.txt'' True state_ab))) = None
   \<and> docs (snd (process_file env_enrich_fails ''/in/a.txt'' True state_ab)) \<noteq> docs state_ab"
proof -
  have found: "get_id_by_path ''/in/a.txt'' (docs state_ab) = Some ''h1''"
    by code_simp
  have fails: "map_of (registry env_enrich_fails) (str_lower (path_suffix ''/in/a.txt'')) = None
       \<or> (\<exists>e. parse_file env_enrich_fails ''/in/a.txt'' = Inl e)
       \<or> (\<exists>d e. parse_file env_enrich_fails ''/in/a.txt'' = Inr d
              \<and> extract_document_info env_enrich_fails (text' d) = Inl e)"
    using parse_a_enrich_fails enrich_a_fails by blast
  show ?thesis
    using force_update_not_atomic [OF env_enrich_fails_healthy env_enrich_fails_healthy
        env_enrich_fails_healthy found fails]
      found parse_a_enrich_fails enrich_a_fails env_enrich_fails_healthy
    by blast
qed

subsection \<open>\<^verbatim>\<open>handle_moved_file\<close>\<close>

lemma ParsedDocument_model_dump [simp]: "ParsedDocument (model_dump d) = d"
  by (simp add: ParsedDocument_def model_dump_def parsed_document.defs raw_doc.defs)

lemma id_model_dump [simp]: "id' (model_dump d) = id' d"
  by (simp add: model_dump_def parsed_document.defs)

lemma replace_one_upsert_ids:
  "id' d \<in> id' ` set coll \<Longrightarrow> map id' (replace_one_upsert d coll) = map id' coll"
  by (induction coll) auto

lemma find_replace_one_upsert_same:
  "find (\<lambda>r. id' r = id' d) (replace_one_upsert d coll) = Some d"
  by (induction coll) auto

lemma find_replace_one_upsert_other:
  "i \<noteq> id' d \<Longrightarrow>
   find (\<lambda>r. id' r = i) (replace_one_upsert d coll) = find (\<lambda>r. id' r = i) coll"
  by (induction coll) auto

lemma get_Some_id: "get i coll = Some doc \<Longrightarrow> id' doc = i \<and> i \<in> id' ` set coll"
  by (induction coll)
    (auto simp: get_def ParsedDocument_def parsed_document.defs split: if_splits)

text \<open>
  What the move keeps. When the store answers, the lookup of the source path gives a
  (non-empty) identifier and \<^verbatim>\<open>get\<close> gives its document, \<^verbatim>\<open>handle_moved_file\<close> returns
  with that identifier now giving, through \<^verbatim>\<open>get\<close>, the same document with \<^verbatim>\<open>path\<close> set
  to the destination and \<^verbatim>\<open>filename\<close> to the destination's name when the names differ.
  The identifiers of the collection are the same, in the same order, every other
  identifier gives what it gave before, and no identifier is drawn.
\<close>

theorem move_preserves_identity:
  assumes healthy: "motor_fault env Connect = None" "motor_fault env GetIdByPath = None"
      "motor_fault env Get = None" "motor_fault env Upsert = None"
    and found: "get_id_by_path src_path (docs s) = Some doc_id"
    and nonempty: "doc_id \<noteq> []"
    and got: "get doc_id (docs s) = Some doc"
  shows "fst (handle_moved_file env src_path dest_path s) = Inr ()
    \<and> get doc_id (docs (snd (handle_moved_file env src_path dest_path s)))
        = Some (doc\<lparr>path := dest_path,
                     filename := (if path_name src_path \<noteq> path_name dest_path
                                  then path_name dest_path else filename doc)\<rparr>)
    \<and> map id' (docs (snd (handle_moved_file env src_path dest_path s))) = map id' (docs s)
    \<and> (\<forall>i. i \<noteq> doc_id \<longrightarrow>
          get i (docs (snd (handle_moved_file env src_path dest_path s))) = get i (docs s))
    \<and> uuid_calls (snd (handle_moved_file env src_path dest_path s)) = uuid_calls s"
proof -
  let ?doc = "doc\<lparr>path := dest_path,
                   filename := (if path_name src_path \<noteq> path_name dest_path
                                then path_name dest_path else filename doc)\<rparr>"
  let ?s1 = "logger_info (''Handling moved file from '' @ src_path @ '' to '' @ dest_path) s"
  from got have idd: "id' doc = doc_id" and mem: "doc_id \<in> id' ` set (docs s)"
    using get_Some_id by blast+
  have id2: "id' ?doc = doc_id" using idd by simp
  have ups: "db_upsert env ?doc ?s1
      = (Inr doc_id, ?s1\<lparr>docs := replace_one_upsert (model_dump ?doc) (docs s)\<rparr>)"
    using healthy(4) id2 nonempty by (simp add: db_upsert_def upsert_def Let_def)
  have body: "handle_moved_file_try env src_path dest_path s
      = (Inr (), logger_info (''Document with ID '' @ doc_id
                   @ '' updated with new path: '' @ dest_path)
                  (?s1\<lparr>docs := replace_one_upsert (model_dump ?doc) (docs s)\<rparr>))"
    using healthy(1-3) found nonempty got ups
    by (simp add: handle_moved_file_try_def Let_def get_database_def db_get_id_by_path_def
        db_get_def)
  have docs: "docs (snd (handle_moved_file env src_path dest_path s))
      = replace_one_upsert (model_dump ?doc) (docs s)"
    and uu: "uuid_calls (snd (handle_moved_file env src_path dest_path s)) = uuid_calls s"
    by (simp_all add: handle_moved_file_def body)
  have g1: "get doc_id (replace_one_upsert (model_dump ?doc) (docs s)) = Some ?doc"
    using find_replace_one_upsert_same [of "model_dump ?doc" "docs s"] id2
    by (simp add: get_def)
  have g2: "get i (replace_one_upsert (model_dump ?doc) (docs s)) = get i (docs s)"
    if "i \<noteq> doc_id" for i
    using find_replace_one_upsert_other [of i "model_dump ?doc" "docs s"] that id2
    by (simp add: get_def)
  have ids: "map id' (replace_one_upsert (model_dump ?doc) (docs s)) = map id' (docs s)"
    using replace_one_upsert_ids [of "model_dump ?doc" "docs s"] mem id2 by simp
  show ?thesis
    using handle_moved_file_returns [of env src_path dest_path s] g1 g2 ids uu
    by (simp add: docs)
qed

theorem move_preserves_identity_witness:
  "motor_fault env_ok Connect = None \<and> motor_fault env_ok GetIdByPath = None
   \<and> motor_fault env_ok Get = None \<and> motor_fault env_ok Upsert = None
   \<and> get_id_by_path ''/in/a.txt'' (docs state_ab) = Some ''h1''
   \<and> ''h1'' \<noteq> []
   \<and> get ''h1'' (docs state_ab) = Some doc_a
   \<and> ''h2'' \<noteq> ''h1''
   \<and> get ''h1'' (docs (snd (handle_moved_file env_ok ''/in/a.txt'' ''/in/sub/c.txt'' state_ab)))
       = Some (doc_a\<lparr>path := ''/in/sub/c.txt'', filename := ''c.txt''\<rparr>)
   \<and> map id' (docs (snd (handle_moved_file env_ok ''/in/a.txt'' ''/in/sub/c.txt'' state_ab)))
       = [''h1'', ''h2'']
   \<and> get ''h2'' (docs (snd (handle_moved_file env_ok ''/in/a.txt'' ''/in/sub/c.txt'' state_ab)))
       = Some doc_b"
proof -
  have healthy: "motor_fault env_ok op = None" for op
    by (simp add: env_ok_def)
  have found: "get_id_by_path ''/in/a.txt'' (docs state_ab) = Some ''h1''"
    by code_simp
  have got: "get ''h1'' (docs state_ab) = Some doc_a"
    by (simp add: get_def state_ab_def doc_a_def)
  have got_b: "get ''h2'' (docs state_ab) = Some doc_b"
    by (simp add: get_def state_ab_def doc_a_def doc_b_def)
  have ids: "map id' (docs state_ab) = [''h1'', ''h2'']"
    by (simp add: state_ab_def doc_a_def doc_b_def)
  have names: "path_name ''/in/a.txt'' = ''a.txt''" "path_name ''/in/sub/c.txt'' = ''c.txt''"
    by code_simp+
  have ne: "''h1'' \<noteq> ([]::string)" "''h2'' \<noteq> ''h1''" by simp_all
  show ?thesis
    using move_preserves_identity [OF healthy healthy healthy healthy found ne(1) got,
        of "''/in/sub/c.txt''"]
      healthy found got got_b ids ne
    by (simp add: names)
qed

text \<open>
  C4. The record of \<^verbatim>\<open>/in/a.txt\<close> holds a per-length summary, written by
  \<^verbatim>\<open>set_summary\<close>. The move reads the record with \<^verbatim>\<open>get\<close>, which builds a
  \<^verbatim>\<open>ParsedDocument\<close> and so leaves \<^verbatim>\<open>summaries\<close> behind, and writes it back with
  \<^verbatim>\<open>upsert\<close>, which replaces the whole stored document: the identifiers are those of
  before, and the per-length summary of the moved record is gone.
\<close>

theorem move_drops_summaries:
  "motor_fault env_ok Connect = None \<and> motor_fault env_ok GetIdByPath = None
   \<and> motor_fault env_ok Get = None \<and> motor_fault env_ok Upsert = None
   \<and> get_id_by_path ''/in/a.txt'' (docs state_summarised) = Some ''h1''
   \<and> get ''h1'' (docs state_summarised) = Some doc_a
   \<and> map id' (docs state_summarised) = [''h1'', ''h2'']
   \<and> map summaries (docs state_summarised) = [[(100, ''short'')], []]
   \<and> map id' (docs (snd (handle_moved_file env_ok ''/in/a.txt'' ''/in/sub/c.txt''
                           state_summarised))) = [''h1'', ''h2'']
   \<and> map summaries (docs (snd (handle_moved_file env_ok ''/in/a.txt'' ''/in/sub/c.txt''
                                state_summarised))) = [[], []]"
  by code_simp

subsection \<open>\<^verbatim>\<open>process_directory\<close>\<close>

text \<open>Identifiers stay unique: every write replaces by identifier or adds a new one.\<close>

lemma replace_one_upsert_id_set:
  "id' ` set (replace_one_upsert d coll) = insert (id' d) (id' ` set coll)"
  by (induction coll) auto

lemma replace_one_upsert_distinct:
  "distinct (map id' coll) \<Longrightarrow> distinct (map id' (replace_one_upsert d coll))"
proof (induction coll)
  case Nil
  then show ?case by simp
next
  case (Cons r rs)
  then show ?case
    using replace_one_upsert_id_set [of d rs] by (auto simp: image_iff)
qed

lemma process_file_docs_cases:
  "\<exists>c. (c = docs s \<or> c = filter (\<lambda>r. path r \<noteq> p) (docs s))
       \<and> (docs (snd (process_file env p force s)) = c
            \<or> (\<exists>d. docs (snd (process_file env p force s)) = replace_one_upsert d c))"
proof -
  have new: "docs (snd (process_file_new env p s')) = docs s'
      \<or> (\<exists>d. docs (snd (process_file_new env p s')) = replace_one_upsert d (docs s'))" for s'
    by (rule process_file_new_docs)
  show ?thesis
  proof (cases "process_file_try env p force s = process_file_new env p s")
    case True
    then show ?thesis using new [of s] by (auto simp: process_file_docs)
  next
    case False
    show ?thesis
    proof (cases "\<exists>m. process_file_try env p force s = process_file_new env p
        ((logger_info m s)\<lparr>docs := snd (delete_by_path p (docs s))\<rparr>)")
      case True
      then obtain m where "process_file_try env p force s = process_file_new env p
        ((logger_info m s)\<lparr>docs := snd (delete_by_path p (docs s))\<rparr>)" by blast
      then show ?thesis
        using new [of "(logger_info m s)\<lparr>docs := snd (delete_by_path p (docs s))\<rparr>"]
        by (auto simp: process_file_docs delete_by_path_def)
    next
      case no_del: False
      have "docs (snd (process_file_try env p force s)) = docs s"
        using False no_del
        by (auto simp: process_file_try_def get_database_def db_get_id_by_path_def
            db_delete_by_path_def split: option.splits sum.splits prod.splits if_splits)
      then show ?thesis by (auto simp: process_file_docs)
    qed
  qed
qed

lemma process_file_distinct:
  "distinct (map id' (docs s)) \<Longrightarrow> distinct (map id' (docs (snd (process_file env p force s))))"
  using process_file_docs_cases [of s p env force]
  by (auto simp: replace_one_upsert_distinct distinct_map_filter)

lemma process_files_distinct:
  "distinct (map id' (docs s)) \<Longrightarrow> distinct (map id' (docs (process_files env ps s)))"
  by (induction ps arbitrary: s) (auto simp: process_file_distinct)

lemma delete_one_distinct:
  "distinct (map id' coll) \<Longrightarrow> delete_one i coll = filter (\<lambda>r. id' r \<noteq> i) coll"
  by (induction coll) (auto simp: image_iff intro!: filter_True [symmetric])

lemma cleanup_loop_docs:
  assumes "motor_fault env Delete = None"
  shows "distinct (map id' (docs s)) \<Longrightarrow>
    (\<exists>n. fst (cleanup_loop env d ex ds k s) = Inr n)
    \<and> docs (snd (cleanup_loop env d ex ds k s))
        = filter (\<lambda>r. id' r \<notin> id' ` {doc \<in> set ds.
               path doc \<noteq> [] \<and> startswith (path doc) d \<and> path doc \<notin> ex}) (docs s)"
proof (induction ds arbitrary: k s)
  case Nil
  then show ?case by simp
next
  case (Cons doc rest)
  show ?case
  proof (cases "path doc \<noteq> [] \<and> startswith (path doc) d \<and> path doc \<notin> ex")
    case True
    let ?s1 = "(logger_info (''Deleting orphaned document: '' @ id' doc
                   @ '' (path: '' @ path doc @ '')'') s)\<lparr>docs := delete (id' doc) (docs s)\<rparr>"
    have d1: "docs ?s1 = filter (\<lambda>r. id' r \<noteq> id' doc) (docs s)"
      using Cons.prems by (simp add: delete_def delete_one_distinct)
    then have "distinct (map id' (docs ?s1))"
      using Cons.prems by (simp add: distinct_map_filter)
    from Cons.IH [OF this, of "Suc k"] True assms d1 show ?thesis
      by (auto simp: db_delete_def intro!: filter_cong)
  next
    case False
    with Cons.IH [OF Cons.prems, of k] show ?thesis
      by (auto intro!: filter_cong)
  qed
qed


lemma blank_text_fields [simp]:
  "id' (blank_text r) = id' r" "path (blank_text r) = path r"
  by (simp_all add: blank_text_def ParsedDocument_def parsed_document.defs)

lemma cleanup_docs:
  assumes healthy: "motor_fault env Connect = None" "motor_fault env ListMeta = None"
      "motor_fault env Delete = None"
    and dist: "distinct (map id' (docs s))"
  shows "docs (snd (cleanup_deleted_files_in_directory env d ex s))
    = filter (\<lambda>r. \<not> (path r \<noteq> [] \<and> startswith (path r) d \<and> path r \<notin> ex)) (docs s)"
proof -
  let ?s1 = "logger_info (''Cleaning up deleted files in directory: '' @ d) s"
  let ?loop = "cleanup_loop env d ex (list_meta (docs s)) 0 ?s1"
  let ?cond = "\<lambda>doc. path doc \<noteq> [] \<and> startswith (path doc) d \<and> path doc \<notin> ex"
  have dist1: "distinct (map id' (docs ?s1))" using dist by simp
  from cleanup_loop_docs [OF healthy(3) dist1, of d ex "list_meta (docs s)" 0]
  obtain n where ok: "fst ?loop = Inr n"
    and loop: "docs (snd ?loop)
        = filter (\<lambda>r. id' r \<notin> id' ` {doc \<in> set (list_meta (docs s)). ?cond doc}) (docs s)"
    by auto
  have inj: "inj_on id' (set (docs s))"
    using dist by (simp add: distinct_map)
  have "filter (\<lambda>r. id' r \<notin> id' ` {doc \<in> set (list_meta (docs s)). ?cond doc}) (docs s)
      = filter (\<lambda>r. \<not> ?cond r) (docs s)"
  proof (rule filter_cong [OF refl])
    fix r assume r: "r \<in> set (docs s)"
    have "id' r \<in> id' ` {doc \<in> set (list_meta (docs s)). ?cond doc} \<longleftrightarrow> ?cond r"
    proof
      assume "id' r \<in> id' ` {doc \<in> set (list_meta (docs s)). ?cond doc}"
      then obtain r' where r': "r' \<in> set (docs s)" "id' r' = id' r" "?cond r'"
        by (auto simp: set_list_meta)
      with inj r have "r' = r" by (auto dest: inj_onD)
      with r' show "?cond r" by simp
    next
      assume "?cond r"
      with r have "blank_text r \<in> {doc \<in> set (list_meta (docs s)). ?cond doc}"
        by (simp add: set_list_meta)
      then have "id' (blank_text r) \<in> id' ` {doc \<in> set (list_meta (docs s)). ?cond doc}"
        by (rule imageI)
      then show "id' r \<in> id' ` {doc \<in> set (list_meta (docs s)). ?cond doc}" by simp
    qed
    then show "(id' r \<notin> id' ` {doc \<in> set (list_meta (docs s)). ?cond doc}) = (\<not> ?cond r)"
      by simp
  qed
  with loop have loop': "docs (snd ?loop) = filter (\<lambda>r. \<not> ?cond r) (docs s)" by simp
  obtain s2 where l2: "?loop = (Inr n, s2)" using ok by (cases ?loop) auto
  have "docs (snd (cleanup_deleted_files_in_directory env d ex s)) = docs s2"
    using healthy(1,2) l2
    by (simp add: cleanup_deleted_files_in_directory_def
        cleanup_deleted_files_in_directory_try_def get_database_def db_list_meta_def Let_def)
  with loop' l2 show ?thesis by simp
qed

lemma cleanup_returns: "fst (cleanup_deleted_files_in_directory env d ex s) = Inr ()"
  by (simp add: cleanup_deleted_files_in_directory_def split: prod.splits sum.splits)

text \<open>
  C3. With a store that answers, unique identifiers and a root that is not the empty
  string, \<^verbatim>\<open>process_directory\<close> returns, and the collection it leaves is the collection
  as it stands after \<^verbatim>\<open>process_file\<close> has run on every file of the walk, without the
  records whose path starts with the root and is not a path of the walk: exactly those
  are deleted, and every other record is kept as it is, in its place.
\<close>

theorem sweep_deletes_exactly_orphans:
  assumes "motor_fault env Connect = None"
    and "motor_fault env ListMeta = None"
    and "motor_fault env Delete = None"
    and "distinct (map id' (docs s))"
    and "dir_path \<noteq> []"
  shows "fst (process_directory env dir_path s) = Inr ()
    \<and> docs (snd (process_directory env dir_path s))
        = filter (\<lambda>r. \<not> (startswith (path r) dir_path
                         \<and> path r \<notin> set (walk_file_paths env dir_path)))
            (docs (process_files env (walk_file_paths env dir_path)
                     (logger_info (''Processing directory: '' @ dir_path) s)))"
proof -
  let ?s2 = "process_files env (walk_file_paths env dir_path)
               (logger_info (''Processing directory: '' @ dir_path) s)"
  have "distinct (map id' (docs ?s2))"
    using assms(4) by (simp add: process_files_distinct)
  from cleanup_docs [OF assms(1-3) this, of dir_path "set (walk_file_paths env dir_path)"]
  have "docs (snd (process_directory env dir_path s))
      = filter (\<lambda>r. \<not> (path r \<noteq> [] \<and> startswith (path r) dir_path
                       \<and> path r \<notin> set (walk_file_paths env dir_path))) (docs ?s2)"
    by (simp add: process_directory_def Let_def)
  moreover have "startswith p dir_path \<Longrightarrow> p \<noteq> []" for p
    using assms(5) by (auto simp: startswith_def)
  ultimately have "docs (snd (process_directory env dir_path s))
      = filter (\<lambda>r. \<not> (startswith (path r) dir_path
                       \<and> path r \<notin> set (walk_file_paths env dir_path))) (docs ?s2)"
    by (auto intro!: filter_cong)
  then show ?thesis
    by (simp add: process_directory_def Let_def cleanup_returns)
qed

lemma walk_in: "walk_file_paths env_ok ''/in'' = [''/in/a.txt'']"
  by code_simp

lemma scan_state_ab:
  "docs (process_files env_ok [''/in/a.txt''] (logger_info (''Processing directory: '' @ ''/in'') state_ab))
     = [model_dump doc_a, model_dump doc_b]"
  by code_simp

theorem sweep_deletes_exactly_orphans_witness:
  "motor_fault env_ok Connect = None \<and> motor_fault env_ok ListMeta = None
   \<and> motor_fault env_ok Delete = None
   \<and> distinct (map id' (docs state_ab))
   \<and> ''/in'' \<noteq> []
   \<and> walk_file_paths env_ok ''/in'' = [''/in/a.txt'']
   \<and> docs (snd (process_directory env_ok ''/in'' state_ab)) = [model_dump doc_a]"
proof -
  have healthy: "motor_fault env_ok op = None" for op
    by (simp add: env_ok_def)
  have dist: "distinct (map id' (docs state_ab))"
    by (simp add: state_ab_def doc_a_def doc_b_def)
  have ne: "''/in'' \<noteq> ([]::string)" by simp
  have keep: "filter (\<lambda>r. \<not> (startswith (path r) ''/in'' \<and> path r \<notin> set [''/in/a.txt'']))
       [model_dump doc_a, model_dump doc_b] = [model_dump doc_a]"
    by (simp add: startswith_def model_dump_def doc_a_def doc_b_def parsed_document.defs)
  have "docs (snd (process_directory env_ok ''/in'' state_ab)) = [model_dump doc_a]"
    using sweep_deletes_exactly_orphans [OF healthy healthy healthy dist ne]
    by (simp only: walk_in scan_state_ab keep)
  then show ?thesis
    using healthy dist ne walk_in by simp
qed

end
